theory Spec2Isabelle
  imports Main "HOL-Library.Multiset"
begin

section \<open>Python values\<close>

text \<open>
  The schedule is the value \<^verbatim>\<open>json.loads\<close> returns: nested dicts, lists, strings,
  numbers, booleans and \<^verbatim>\<open>None\<close>. A decoded object is an association list in insertion
  order (a dict has every key once; a lookup takes the first pair of a key). JSON numbers are integers here, as every number the schedule endpoint sends for
  a team is; numbers with a fraction or an exponent are outside the model.
\<close>

datatype json =
    JNull
  | JBool bool
  | JInt int
  | JStr string
  | JList "json list"
  | JObj "(string \<times> json) list"

datatype py_error = KeyError | TypeError

text \<open>Sequencing of two steps, the first of which may raise.\<close>

definition and_then :: "py_error + 'a \<Rightarrow> ('a \<Rightarrow> py_error + 'b) \<Rightarrow> py_error + 'b" where
  "and_then r f = (case r of Inl e \<Rightarrow> Inl e | Inr v \<Rightarrow> f v)"

text \<open>
  \<^verbatim>\<open>v[k]\<close> for a string \<open>k\<close>: a dict without the key raises \<^verbatim>\<open>KeyError\<close>, every
  other value raises \<^verbatim>\<open>TypeError\<close> (a list or a string wants an integer index, the rest
  is not subscriptable).
\<close>

fun getitem :: "json \<Rightarrow> string \<Rightarrow> py_error + json" where
  "getitem (JObj kvs) k = (case map_of kvs k of None \<Rightarrow> Inl KeyError | Some v \<Rightarrow> Inr v)"
| "getitem _ k = Inl TypeError"

text \<open>
  \<^verbatim>\<open>for x in v\<close>: a list yields its elements, a dict its keys, a string its characters;
  nothing else is iterable.
\<close>

fun py_iter :: "json \<Rightarrow> py_error + json list" where
  "py_iter (JList xs) = Inr xs"
| "py_iter (JObj kvs) = Inr (map (\<lambda>kv. JStr (fst kv)) kvs)"
| "py_iter (JStr s) = Inr (map (\<lambda>c. JStr [c]) s)"
| "py_iter _ = Inl TypeError"

subsection \<open>Dict keys\<close>

text \<open>
  Only hashable values can be keys of a dict: a list or a dict as key raises
  \<^verbatim>\<open>TypeError\<close>. Python compares keys with \<^verbatim>\<open>==\<close>, under which \<^verbatim>\<open>True\<close> is \<^verbatim>\<open>1\<close> and
  \<^verbatim>\<open>False\<close> is \<^verbatim>\<open>0\<close>.
\<close>

datatype pykey = KNone | KBool bool | KInt int | KStr string

fun to_key :: "json \<Rightarrow> py_error + pykey" where
  "to_key JNull = Inr KNone"
| "to_key (JBool b) = Inr (KBool b)"
| "to_key (JInt i) = Inr (KInt i)"
| "to_key (JStr s) = Inr (KStr s)"
| "to_key (JList xs) = Inl TypeError"
| "to_key (JObj kvs) = Inl TypeError"

fun key_norm :: "pykey \<Rightarrow> pykey" where
  "key_norm (KBool b) = KInt (if b then 1 else 0)"
| "key_norm k = k"

definition key_eq :: "pykey \<Rightarrow> pykey \<Rightarrow> bool" where
  "key_eq a b = (key_norm a = key_norm b)"

text \<open>
  A dict is an association list in insertion order. Assigning to a key that is present
  replaces the value and keeps the key object and its position; a new key goes last.
\<close>

type_synonym 'v pydict = "(pykey \<times> 'v) list"

fun dict_in :: "pykey \<Rightarrow> 'v pydict \<Rightarrow> bool" where
  "dict_in k [] = False"
| "dict_in k ((k', v) # d) = (key_eq k' k \<or> dict_in k d)"

fun dict_get :: "'v pydict \<Rightarrow> pykey \<Rightarrow> py_error + 'v" where
  "dict_get [] k = Inl KeyError"
| "dict_get ((k', v) # d) k = (if key_eq k' k then Inr v else dict_get d k)"

fun dict_set :: "'v pydict \<Rightarrow> pykey \<Rightarrow> 'v \<Rightarrow> 'v pydict" where
  "dict_set [] k v = [(k, v)]"
| "dict_set ((k', v') # d) k v =
     (if key_eq k' k then (k', v) # d else (k', v') # dict_set d k v)"

text \<open>\<^verbatim>\<open>str(k)\<close> of a key.\<close>

definition digit_char :: "nat \<Rightarrow> char" where
  "digit_char n = ''0123456789'' ! n"

fun str_nat :: "nat \<Rightarrow> string" where
  "str_nat n = (if n < 10 then [digit_char n] else str_nat (n div 10) @ [digit_char (n mod 10)])"

declare str_nat.simps [simp del]

fun py_str :: "pykey \<Rightarrow> string" where
  "py_str KNone = ''None''"
| "py_str (KBool b) = (if b then ''True'' else ''False'')"
| "py_str (KInt i) = (if i < 0 then CHR ''-'' # str_nat (nat (- i)) else str_nat (nat i))"
| "py_str (KStr s) = s"

section \<open>src/utils/nhl\_api.py\<close>

text \<open>
  The dict \<^verbatim>\<open>get_game_by_teams\<close> builds for a team and a game:
  \<^verbatim>\<open>{'date': ..., 'against': ..., 'location': ..., 'type': ...}\<close>.
\<close>

record team_game_record =
  date :: json
  against :: json
  location :: string
  type :: json

type_synonym games_per_team = "team_game_record list pydict"

text \<open>\<^verbatim>\<open>game['teams'][side]['team']['id']\<close>\<close>

definition game_team_id :: "json \<Rightarrow> string \<Rightarrow> py_error + json" where
  "game_team_id game side =
     and_then (getitem game ''teams'') (\<lambda>teams.
     and_then (getitem teams side) (\<lambda>s.
     and_then (getitem s ''team'') (\<lambda>team.
     getitem team ''id'')))"

text \<open>
  The dict display of lines 139 to 166; its values are evaluated left to right, so
  \<^verbatim>\<open>date['date']\<close> is read before \<^verbatim>\<open>game['gameType']\<close>.
\<close>

definition make_record :: "json \<Rightarrow> json \<Rightarrow> json \<Rightarrow> string \<Rightarrow> py_error + team_game_record" where
  "make_record date_group game opponent loc =
     and_then (getitem date_group ''date'') (\<lambda>d.
     and_then (getitem game ''gameType'') (\<lambda>t.
     Inr \<lparr>date = d, against = opponent, location = loc, type = t\<rparr>))"

text \<open>
  Lines 138 to 151 for the home team and 153 to 166 for the away team are the same
  statement with the two sides exchanged:
  \<^verbatim>\<open>
  if team in games_per_team:
      games_per_team[team] = games_per_team[team] + [record]
  else:
      games_per_team[team] = [record]
  \<close>
  The membership test hashes \<open>team\<close> and so raises for a list or a dict.
\<close>

definition add_team_game ::
  "games_per_team \<Rightarrow> json \<Rightarrow> json \<Rightarrow> json \<Rightarrow> json \<Rightarrow> string \<Rightarrow> py_error + games_per_team" where
  "add_team_game gpt team date_group game opponent loc =
     and_then (to_key team) (\<lambda>k.
       if dict_in k gpt then
         and_then (dict_get gpt k) (\<lambda>old.
         and_then (make_record date_group game opponent loc) (\<lambda>r.
         Inr (dict_set gpt k (old @ [r]))))
       else
         and_then (make_record date_group game opponent loc) (\<lambda>r.
         Inr (dict_set gpt k [r])))"

text \<open>
  The test of line 134, \<^verbatim>\<open>game_type == 'all' or game_type == game['gameType']\<close>: the
  field is not read when the filter is \<^verbatim>\<open>'all'\<close>.
\<close>

definition type_test :: "string \<Rightarrow> json \<Rightarrow> py_error + bool" where
  "type_test game_type game =
     (if game_type = ''all'' then Inr True
      else and_then (getitem game ''gameType'') (\<lambda>t. Inr (JStr game_type = t)))"

text \<open>The body of the inner loop, lines 134 to 166.\<close>

definition game_body :: "string \<Rightarrow> json \<Rightarrow> games_per_team \<Rightarrow> json \<Rightarrow> py_error + games_per_team" where
  "game_body game_type date_group gpt game =
     and_then (type_test game_type game) (\<lambda>c.
       if c then
         and_then (game_team_id game ''home'') (\<lambda>home.
         and_then (game_team_id game ''away'') (\<lambda>away.
         and_then (add_team_game gpt home date_group game away ''home'') (\<lambda>gpt1.
         add_team_game gpt1 away date_group game home ''away'')))
       else Inr gpt)"

text \<open>\<^verbatim>\<open>for game in date['games']\<close>\<close>

fun games_loop :: "string \<Rightarrow> json \<Rightarrow> games_per_team \<Rightarrow> json list \<Rightarrow> py_error + games_per_team" where
  "games_loop game_type date_group gpt [] = Inr gpt"
| "games_loop game_type date_group gpt (game # games) =
     and_then (game_body game_type date_group gpt game) (\<lambda>gpt1.
     games_loop game_type date_group gpt1 games)"

text \<open>\<^verbatim>\<open>for date in schedule\<close>\<close>

fun dates_loop :: "string \<Rightarrow> games_per_team \<Rightarrow> json list \<Rightarrow> py_error + games_per_team" where
  "dates_loop game_type gpt [] = Inr gpt"
| "dates_loop game_type gpt (date_group # dates) =
     and_then (getitem date_group ''games'') (\<lambda>games_field.
     and_then (py_iter games_field) (\<lambda>games.
     and_then (games_loop game_type date_group gpt games) (\<lambda>gpt1.
     dates_loop game_type gpt1 dates)))"

text \<open>
  \<^verbatim>\<open>get_game_by_teams\<close>, from line 131 on. Its first line fetches the schedule over
  HTTP; the model takes what \<^verbatim>\<open>get_games_by_dates\<close> returned, the \<^verbatim>\<open>dates\<close> field of
  the response, in place of the two dates.
\<close>

definition get_game_by_teams :: "json \<Rightarrow> string \<Rightarrow> py_error + games_per_team" where
  "get_game_by_teams schedule game_type =
     and_then (py_iter schedule) (\<lambda>dates. dates_loop game_type [] dates)"

definition TEAM_ABBR :: "(string \<times> string) list" where
  "TEAM_ABBR =
    [(''1'', ''NJD''), (''2'', ''NYI''), (''3'', ''NYR''), (''4'', ''PHI''),
     (''5'', ''PIT''), (''6'', ''BOS''), (''7'', ''BUF''), (''8'', ''MTL''),
     (''9'', ''OTT''), (''10'', ''TOR''), (''12'', ''CAR''), (''13'', ''FLA''),
     (''14'', ''TBL''), (''15'', ''WSH''), (''16'', ''CHI''), (''17'', ''DET''),
     (''18'', ''NSH''), (''19'', ''STL''), (''20'', ''CGY''), (''21'', ''COL''),
     (''22'', ''EDM''), (''23'', ''VAN''), (''24'', ''ANA''), (''25'', ''DAL''),
     (''26'', ''LAK''), (''28'', ''SJS''), (''29'', ''CBJ''), (''30'', ''MIN''),
     (''52'', ''WPG''), (''53'', ''ARI''), (''54'', ''VGK''), (''55'', ''SEA'')]"

section \<open>src/app.py\<close>

record row =
  team :: string
  game_count :: nat

text \<open>
  What \<^verbatim>\<open>update_table\<close> returns: the literal string, or the \<^verbatim>\<open>DataTable\<close> with its
  rows and the two counts its conditional styles compare with.
\<close>

datatype table = Placeholder string | DataTable "row list" nat nat

definition team_ids :: "string list" where
  "team_ids = map fst TEAM_ABBR"

text \<open>
  The comprehension of lines 136 to 143. The condition is evaluated before the element,
  so \<^verbatim>\<open>teams[str(team_id)]\<close> is only read for a key of the table.
\<close>

fun build_data :: "games_per_team \<Rightarrow> py_error + row list" where
  "build_data [] = Inr []"
| "build_data ((team_id, games) # items) =
     (if py_str team_id \<in> set team_ids then
        (case map_of TEAM_ABBR (py_str team_id) of
           None \<Rightarrow> Inl KeyError
         | Some abbr \<Rightarrow>
             and_then (build_data items) (\<lambda>rest.
             Inr (\<lparr>team = abbr, game_count = length games\<rparr> # rest)))
      else build_data items)"

text \<open>
  \<^verbatim>\<open>data.sort(key=lambda team: team['game_count'], reverse=True)\<close>: Python's sort is
  stable, and with \<^verbatim>\<open>reverse=True\<close> equal elements still keep their order. Insertion
  by the negated count is such a sort.
\<close>

definition sort_data :: "row list \<Rightarrow> row list" where
  "sort_data data = sort_key (\<lambda>r. - int (game_count r)) data"

text \<open>Lines 145 to 187; \<^verbatim>\<open>data[0]\<close> and \<^verbatim>\<open>data[len(data)-1]\<close> are read of a non-empty list.\<close>

definition render :: "row list \<Rightarrow> table" where
  "render data =
     (if data \<noteq> [] then
        (let sorted_data = sort_data data;
             highest_count = game_count (sorted_data ! 0);
             lowest_count = game_count (sorted_data ! (length sorted_data - 1))
         in DataTable sorted_data highest_count lowest_count)
      else Placeholder ''No data retrieved...'')"

text \<open>
  \<^verbatim>\<open>update_table\<close>, with the schedule in place of the two dates as above. Nothing in
  it catches an exception of \<^verbatim>\<open>get_game_by_teams\<close>.
\<close>

definition update_table :: "json \<Rightarrow> string \<Rightarrow> py_error + table" where
  "update_table schedule game_type =
     and_then (get_game_by_teams schedule game_type) (\<lambda>team_schdule.
     and_then (build_data team_schdule) (\<lambda>data.
     Inr (render data)))"

section \<open>Vocabulary of the properties\<close>

subsection \<open>The games of a schedule\<close>

text \<open>
  The pairs of a date group and one of its games, in the order the two loops visit
  them. A date group whose \<open>games\<close> cannot be read has none (the aggregation raises
  there).
\<close>

definition games_in :: "json \<Rightarrow> (json \<times> json) list" where
  "games_in date_group =
     (case and_then (getitem date_group ''games'') py_iter of
        Inr games \<Rightarrow> map (Pair date_group) games
      | Inl _ \<Rightarrow> [])"

definition all_games :: "json \<Rightarrow> (json \<times> json) list" where
  "all_games schedule =
     (case py_iter schedule of
        Inr dates \<Rightarrow> concat (map games_in dates)
      | Inl _ \<Rightarrow> [])"

text \<open>A game passes the filter when the test of line 134 is true of it.\<close>

definition passes :: "string \<Rightarrow> json \<Rightarrow> bool" where
  "passes game_type game =
     (game_type = ''all'' \<or> getitem game ''gameType'' = Inr (JStr game_type))"

text \<open>
  Readers that always give a value: the field where it is there, \<open>JNull\<close> (and
  \<open>KNone\<close> for a key) where it is not. \<open>complete\<close> says that everything the code reads
  of a passing game is there, so that these readers give what the code read.
\<close>

definition field :: "json \<Rightarrow> string \<Rightarrow> json" where
  "field v k = (case getitem v k of Inr x \<Rightarrow> x | Inl _ \<Rightarrow> JNull)"

definition home_of :: "json \<Rightarrow> json" where
  "home_of game = field (field (field (field game ''teams'') ''home'') ''team'') ''id''"

definition away_of :: "json \<Rightarrow> json" where
  "away_of game = field (field (field (field game ''teams'') ''away'') ''team'') ''id''"

definition key_of :: "json \<Rightarrow> pykey" where
  "key_of v = (case to_key v of Inr k \<Rightarrow> k | Inl _ \<Rightarrow> KNone)"

definition complete :: "json \<Rightarrow> json \<Rightarrow> bool" where
  "complete date_group game =
     (getitem date_group ''date'' = Inr (field date_group ''date'') \<and>
      getitem game ''gameType'' = Inr (field game ''gameType'') \<and>
      game_team_id game ''home'' = Inr (home_of game) \<and>
      game_team_id game ''away'' = Inr (away_of game) \<and>
      to_key (home_of game) = Inr (key_of (home_of game)) \<and>
      to_key (away_of game) = Inr (key_of (away_of game)))"

text \<open>The record of a game for its home team and the one for its away team.\<close>

definition home_record :: "json \<Rightarrow> json \<Rightarrow> team_game_record" where
  "home_record date_group game =
     \<lparr>date = field date_group ''date'', against = away_of game,
      location = ''home'', type = field game ''gameType''\<rparr>"

definition away_record :: "json \<Rightarrow> json \<Rightarrow> team_game_record" where
  "away_record date_group game =
     \<lparr>date = field date_group ''date'', against = home_of game,
      location = ''away'', type = field game ''gameType''\<rparr>"

text \<open>
  What a game adds to the list of the team with key \<open>k\<close>: its home record when \<open>k\<close>
  is its home team, its away record when \<open>k\<close> is its away team, nothing when it does
  not pass the filter.
\<close>

definition contribution :: "string \<Rightarrow> pykey \<Rightarrow> json \<times> json \<Rightarrow> team_game_record list" where
  "contribution game_type k dg =
     (if passes game_type (snd dg) then
        (if key_eq (key_of (home_of (snd dg))) k then [home_record (fst dg) (snd dg)] else []) @
        (if key_eq (key_of (away_of (snd dg))) k then [away_record (fst dg) (snd dg)] else [])
      else [])"

text \<open>The same as a list of keys with their records, home before away.\<close>

definition entries :: "string \<Rightarrow> json \<times> json \<Rightarrow> (pykey \<times> team_game_record) list" where
  "entries game_type dg =
     (if passes game_type (snd dg) then
        [(key_of (home_of (snd dg)), home_record (fst dg) (snd dg)),
         (key_of (away_of (snd dg)), away_record (fst dg) (snd dg))]
      else [])"

subsection \<open>The resulting dict\<close>

text \<open>
  The list of a team (empty for a team that is no key), the step that appends one record
  to it, the number of records of all teams, the records of all teams, and the
  invariant of a dict: no two of its keys are equal for Python.
\<close>

definition team_list :: "games_per_team \<Rightarrow> pykey \<Rightarrow> team_game_record list" where
  "team_list gpt k = (case dict_get gpt k of Inr l \<Rightarrow> l | Inl _ \<Rightarrow> [])"

definition add_entry :: "games_per_team \<Rightarrow> pykey \<times> team_game_record \<Rightarrow> games_per_team" where
  "add_entry gpt e = dict_set gpt (fst e) (team_list gpt (fst e) @ [snd e])"

definition total_records :: "games_per_team \<Rightarrow> nat" where
  "total_records gpt = sum_list (map (\<lambda>kv. length (snd kv)) gpt)"

definition records_of :: "games_per_team \<Rightarrow> team_game_record set" where
  "records_of gpt = (\<Union>kv\<in>set gpt. set (snd kv))"

definition keys_distinct :: "'v pydict \<Rightarrow> bool" where
  "keys_distinct d = distinct (map key_norm (map fst d))"

subsection \<open>Inputs on which the aggregation returns\<close>

definition returns :: "py_error + 'a \<Rightarrow> bool" where
  "returns r = (case r of Inl _ \<Rightarrow> False | Inr _ \<Rightarrow> True)"

text \<open>
  What the code reads of a game is there: its \<open>gameType\<close> unless the filter is
  \<open>''all''\<close>, and, when the game passes, all that \<open>complete\<close> lists. \<open>runs\<close> asks this of
  every game, and that the schedule and the \<open>games\<close> of every date group can be
  iterated; it is shown below to hold exactly of the inputs on which
  \<open>get_game_by_teams\<close> returns.
\<close>

definition read_ok :: "string \<Rightarrow> json \<Rightarrow> json \<Rightarrow> bool" where
  "read_ok game_type date_group game =
     (returns (type_test game_type game) \<and>
      (passes game_type game \<longrightarrow> complete date_group game))"

definition date_ok :: "string \<Rightarrow> json \<Rightarrow> bool" where
  "date_ok game_type date_group =
     (case and_then (getitem date_group ''games'') py_iter of
        Inl _ \<Rightarrow> False
      | Inr games \<Rightarrow> list_all (read_ok game_type date_group) games)"

definition runs :: "string \<Rightarrow> json \<Rightarrow> bool" where
  "runs game_type schedule =
     (case py_iter schedule of
        Inl _ \<Rightarrow> False
      | Inr dates \<Rightarrow> list_all (date_ok game_type) dates)"

text \<open>
  A well-formed schedule, the \<^verbatim>\<open>dates\<close> array of the endpoint: a list of date groups,
  each with a \<open>date\<close> and a list \<open>games\<close>, each game with a \<open>gameType\<close> and the
  identifiers \<^verbatim>\<open>teams.home.team.id\<close> and \<^verbatim>\<open>teams.away.team.id\<close>. A team identifier is
  a scalar (the endpoint sends a number); a list or an object in its place cannot be
  hashed, see \<open>unhashable_team_id_raises\<close> below.
\<close>

definition wf_team :: "json \<Rightarrow> string \<Rightarrow> bool" where
  "wf_team game side =
     (case game_team_id game side of Inl _ \<Rightarrow> False | Inr t \<Rightarrow> returns (to_key t))"

definition wf_game :: "json \<Rightarrow> bool" where
  "wf_game game =
     (returns (getitem game ''gameType'') \<and> wf_team game ''home'' \<and> wf_team game ''away'')"

definition wf_date :: "json \<Rightarrow> bool" where
  "wf_date date_group =
     (returns (getitem date_group ''date'') \<and>
      (case getitem date_group ''games'' of
         Inr (JList games) \<Rightarrow> list_all wf_game games
       | _ \<Rightarrow> False))"

definition wf_schedule :: "json \<Rightarrow> bool" where
  "wf_schedule schedule =
     (case schedule of JList dates \<Rightarrow> list_all wf_date dates | _ \<Rightarrow> False)"







subsection \<open>The rows of the table\<close>

text \<open>
  An item of the dict is in the directory when the \<^verbatim>\<open>str\<close> of its key is a key of
  \<open>TEAM_ABBR\<close>; its row has the abbreviation of the table and the length of its list.
\<close>

definition in_directory :: "pykey \<times> team_game_record list \<Rightarrow> bool" where
  "in_directory item = (py_str (fst item) \<in> set team_ids)"

definition row_of :: "pykey \<times> team_game_record list \<Rightarrow> row" where
  "row_of item =
     \<lparr>team = (case map_of TEAM_ABBR (py_str (fst item)) of Some abbr \<Rightarrow> abbr | None \<Rightarrow> []),
      game_count = length (snd item)\<rparr>"

subsection \<open>Example inputs\<close>

text \<open>
  A game and a date group as the endpoint sends them, cut down to the fields the code
  reads and a few it does not. The example schedule has Boston (6) at home against
  Washington (15) on 2022-10-12, and on 2022-10-13 a pre-season game of Toronto (10)
  against Boston and Washington at home against a team with identifier 99, which is
  not in \<open>TEAM_ABBR\<close>. \<open>example_R\<close> is what the aggregation gives for it under the filter
  \<open>''R''\<close>, \<open>example_day2_all\<close> what the second day gives under \<open>''all''\<close>.
\<close>

definition game_json :: "string \<Rightarrow> json \<Rightarrow> json \<Rightarrow> json" where
  "game_json t h a =
     JObj [(''gamePk'', JInt 2022020005), (''gameType'', JStr t),
           (''teams'', JObj [(''away'', JObj [(''score'', JInt 5), (''team'', JObj [(''id'', a)])]),
                             (''home'', JObj [(''score'', JInt 2), (''team'', JObj [(''id'', h)])])])]"

definition date_json :: "string \<Rightarrow> json list \<Rightarrow> json" where
  "date_json d games =
     JObj [(''date'', JStr d), (''totalGames'', JInt (int (length games))),
           (''games'', JList games)]"

definition example_day1 :: json where
  "example_day1 = date_json ''2022-10-12'' [game_json ''R'' (JInt 6) (JInt 15)]"

definition example_day2 :: json where
  "example_day2 =
     date_json ''2022-10-13'' [game_json ''PR'' (JInt 10) (JInt 6),
                               game_json ''R'' (JInt 15) (JInt 99)]"

definition example_schedule :: json where
  "example_schedule = JList [example_day1, example_day2]"

definition example_R :: games_per_team where
  "example_R =
     [(KInt 6, [\<lparr>date = JStr ''2022-10-12'', against = JInt 15, location = ''home'', type = JStr ''R''\<rparr>]),
      (KInt 15, [\<lparr>date = JStr ''2022-10-12'', against = JInt 6, location = ''away'', type = JStr ''R''\<rparr>,
                 \<lparr>date = JStr ''2022-10-13'', against = JInt 99, location = ''home'', type = JStr ''R''\<rparr>]),
      (KInt 99, [\<lparr>date = JStr ''2022-10-13'', against = JInt 15, location = ''away'', type = JStr ''R''\<rparr>])]"





definition unhashable_schedule :: json where
  "unhashable_schedule =
     JList [date_json ''2022-10-12'' [game_json ''R'' (JList [JInt 6]) (JInt 15)]]"




text \<open>Rows before the sort; each of the two counts occurs twice.\<close>

definition example_rows :: "row list" where
  "example_rows =
     [\<lparr>team = ''TOR'', game_count = 1\<rparr>, \<lparr>team = ''BOS'', game_count = 2\<rparr>,
      \<lparr>team = ''NJD'', game_count = 1\<rparr>, \<lparr>team = ''WSH'', game_count = 2\<rparr>]"

section \<open>What a returning aggregation has done\<close>

lemma and_then_Inr_iff: "and_then r f = Inr y \<longleftrightarrow> (\<exists>v. r = Inr v \<and> f v = Inr y)"
  by (cases r) (simp_all add: and_then_def)

lemma getitem_field: "getitem v k = Inr x \<Longrightarrow> field v k = x"
  by (simp add: field_def)

lemma game_team_id_home: "game_team_id g ''home'' = Inr h \<Longrightarrow> home_of g = h"
  by (auto simp: game_team_id_def and_then_Inr_iff home_of_def getitem_field)

lemma game_team_id_away: "game_team_id g ''away'' = Inr a \<Longrightarrow> away_of g = a"
  by (auto simp: game_team_id_def and_then_Inr_iff away_of_def getitem_field)

lemma to_key_key_of: "to_key v = Inr k \<Longrightarrow> key_of v = k"
  by (simp add: key_of_def)

lemma dict_in_get: "dict_in k d \<Longrightarrow> \<exists>l. dict_get d k = Inr l"
  by (induction d) auto

lemma not_dict_in_get: "\<not> dict_in k d \<Longrightarrow> dict_get d k = Inl KeyError"
  by (induction d) auto

lemma type_test_passes: "type_test ft g = Inr c \<Longrightarrow> c = passes ft g"
  by (auto simp: type_test_def passes_def and_then_Inr_iff split: if_splits)

lemma make_record_Inr:
  "make_record d g opp loc = Inr r \<Longrightarrow>
     r = \<lparr>date = field d ''date'', against = opp, location = loc, type = field g ''gameType''\<rparr> \<and>
     getitem d ''date'' = Inr (field d ''date'') \<and>
     getitem g ''gameType'' = Inr (field g ''gameType'')"
  by (auto simp: make_record_def and_then_Inr_iff getitem_field)

lemma add_team_game_Inr:
  assumes "add_team_game gpt t d g opp loc = Inr gpt'"
  shows "to_key t = Inr (key_of t) \<and>
         getitem d ''date'' = Inr (field d ''date'') \<and>
         getitem g ''gameType'' = Inr (field g ''gameType'') \<and>
         gpt' = add_entry gpt (key_of t,
           \<lparr>date = field d ''date'', against = opp, location = loc, type = field g ''gameType''\<rparr>)"
proof -
  from assms obtain k where k: "to_key t = Inr k"
    by (auto simp: add_team_game_def and_then_Inr_iff)
  then have ko: "key_of t = k" by (rule to_key_key_of)
  show ?thesis
  proof (cases "dict_in k gpt")
    case True
    with assms k obtain old r where "dict_get gpt k = Inr old"
      "make_record d g opp loc = Inr r" "gpt' = dict_set gpt k (old @ [r])"
      by (auto simp: add_team_game_def and_then_Inr_iff)
    then show ?thesis using k ko
      by (auto dest!: make_record_Inr simp: add_entry_def team_list_def)
  next
    case False
    with assms k obtain r where
      "make_record d g opp loc = Inr r" "gpt' = dict_set gpt k [r]"
      by (auto simp: add_team_game_def and_then_Inr_iff)
    then show ?thesis using k ko False
      by (auto dest!: make_record_Inr simp: add_entry_def team_list_def not_dict_in_get)
  qed
qed

lemma game_body_Inr:
  assumes "game_body ft d gpt g = Inr gpt'"
  shows "gpt' = foldl add_entry gpt (entries ft (d, g)) \<and> (passes ft g \<longrightarrow> complete d g)"
proof -
  from assms obtain c where c: "type_test ft g = Inr c"
    by (auto simp: game_body_def and_then_Inr_iff)
  then have cp: "c = passes ft g" by (rule type_test_passes)
  show ?thesis
  proof (cases c)
    case False
    with assms c cp show ?thesis
      by (auto simp: game_body_def and_then_def entries_def)
  next
    case True
    with assms c obtain h a gpt1 where
      h: "game_team_id g ''home'' = Inr h" and a: "game_team_id g ''away'' = Inr a" and
      s1: "add_team_game gpt h d g a ''home'' = Inr gpt1" and
      s2: "add_team_game gpt1 a d g h ''away'' = Inr gpt'"
      by (auto simp: game_body_def and_then_Inr_iff)
    from h have ho: "home_of g = h" by (rule game_team_id_home)
    from a have ao: "away_of g = a" by (rule game_team_id_away)
    from add_team_game_Inr[OF s1] add_team_game_Inr[OF s2] h a ho ao True cp
    show ?thesis
      by (simp add: entries_def complete_def home_record_def away_record_def)
  qed
qed

lemma games_loop_Inr:
  "games_loop ft d gpt gs = Inr gpt' \<Longrightarrow>
     gpt' = foldl add_entry gpt (concat (map (\<lambda>g. entries ft (d, g)) gs)) \<and>
     (\<forall>g\<in>set gs. passes ft g \<longrightarrow> complete d g)"
proof (induction gs arbitrary: gpt)
  case Nil
  then show ?case by simp
next
  case (Cons g gs)
  then obtain gpt1 where b: "game_body ft d gpt g = Inr gpt1"
    and l: "games_loop ft d gpt1 gs = Inr gpt'"
    by (auto simp: and_then_Inr_iff)
  from game_body_Inr[OF b] Cons.IH[OF l] show ?case by simp
qed

lemma games_in_Inr:
  "getitem d ''games'' = Inr gf \<Longrightarrow> py_iter gf = Inr gs \<Longrightarrow> games_in d = map (Pair d) gs"
  by (simp add: games_in_def and_then_def)

lemma dates_loop_Inr:
  "dates_loop ft gpt ds = Inr gpt' \<Longrightarrow>
     gpt' = foldl add_entry gpt (concat (map (entries ft) (concat (map games_in ds)))) \<and>
     (\<forall>dg\<in>set (concat (map games_in ds)). passes ft (snd dg) \<longrightarrow> complete (fst dg) (snd dg))"
proof (induction ds arbitrary: gpt)
  case Nil
  then show ?case by simp
next
  case (Cons d ds)
  then obtain gf gs gpt1 where gf: "getitem d ''games'' = Inr gf" and gs: "py_iter gf = Inr gs"
    and l: "games_loop ft d gpt gs = Inr gpt1" and r: "dates_loop ft gpt1 ds = Inr gpt'"
    by (auto simp: and_then_Inr_iff)
  have m: "map (entries ft) (map (Pair d) gs) = map (\<lambda>g. entries ft (d, g)) gs"
    by simp
  from games_loop_Inr[OF l] Cons.IH[OF r]
  have "gpt' = foldl add_entry gpt (concat (map (entries ft) (concat (map games_in (d # ds)))))"
    by (simp add: games_in_Inr[OF gf gs] m del: map_map)
  moreover from games_loop_Inr[OF l] Cons.IH[OF r]
  have "\<forall>dg\<in>set (concat (map games_in (d # ds))). passes ft (snd dg) \<longrightarrow> complete (fst dg) (snd dg)"
    by (auto simp: games_in_Inr[OF gf gs])
  ultimately show ?case by blast
qed

lemma get_game_by_teams_Inr:
  assumes "get_game_by_teams s ft = Inr m"
  shows "m = foldl add_entry [] (concat (map (entries ft) (all_games s)))"
    and "\<forall>dg\<in>set (all_games s). passes ft (snd dg) \<longrightarrow> complete (fst dg) (snd dg)"
proof -
  from assms obtain ds where "py_iter s = Inr ds" "dates_loop ft [] ds = Inr m"
    by (auto simp: get_game_by_teams_def and_then_Inr_iff)
  then show "m = foldl add_entry [] (concat (map (entries ft) (all_games s)))"
    and "\<forall>dg\<in>set (all_games s). passes ft (snd dg) \<longrightarrow> complete (fst dg) (snd dg)"
    using dates_loop_Inr[of ft "[]" ds m] by (simp_all add: all_games_def)
qed

subsection \<open>The dict operations\<close>

lemma key_eq_refl [simp]: "key_eq k k"
  by (simp add: key_eq_def)

lemma key_eq_sym: "key_eq a b \<Longrightarrow> key_eq b a"
  by (simp add: key_eq_def)

lemma key_eq_trans: "key_eq a b \<Longrightarrow> key_eq b c \<Longrightarrow> key_eq a c"
  by (simp add: key_eq_def)

lemma key_eq_cong: "key_eq a b \<Longrightarrow> key_eq a c = key_eq b c"
  by (simp add: key_eq_def)

lemma dict_get_set:
  "dict_get (dict_set d k v) k' = (if key_eq k k' then Inr v else dict_get d k')"
proof (induction d)
  case Nil
  then show ?case by simp
next
  case (Cons e d)
  obtain k0 v0 where e: "e = (k0, v0)" by (cases e)
  show ?case using Cons.IH
    by (auto simp: e key_eq_def)
qed

lemma team_list_add_entry:
  "team_list (add_entry gpt e) k = team_list gpt k @ (if key_eq (fst e) k then [snd e] else [])"
proof (cases "key_eq (fst e) k")
  case True
  then have "dict_get gpt (fst e) = dict_get gpt k"
    by (induction gpt) (auto simp: key_eq_def)
  with True show ?thesis
    by (simp add: add_entry_def team_list_def dict_get_set)
next
  case False
  then show ?thesis
    by (simp add: add_entry_def team_list_def dict_get_set)
qed

lemma team_list_foldl_add_entry:
  "team_list (foldl add_entry gpt es) k =
     team_list gpt k @ map snd (filter (\<lambda>e. key_eq (fst e) k) es)"
  by (induction es arbitrary: gpt) (simp_all add: team_list_add_entry)

lemma team_list_Nil [simp]: "team_list [] k = []"
  by (simp add: team_list_def)

lemma total_records_add_entry: "total_records (add_entry gpt e) = Suc (total_records gpt)"
proof (induction gpt)
  case Nil
  then show ?case by (simp add: add_entry_def total_records_def)
next
  case (Cons x gpt)
  obtain k0 v0 where x: "x = (k0, v0)" by (cases x)
  show ?case
  proof (cases "key_eq k0 (fst e)")
    case True
    then show ?thesis by (simp add: x add_entry_def total_records_def team_list_def)
  next
    case False
    with Cons.IH show ?thesis by (simp add: x add_entry_def total_records_def team_list_def)
  qed
qed

lemma total_records_foldl_add_entry:
  "total_records (foldl add_entry gpt es) = total_records gpt + length es"
  by (induction es arbitrary: gpt) (simp_all add: total_records_add_entry)

lemma map_fst_dict_set:
  "map fst (dict_set d k v) = (if dict_in k d then map fst d else map fst d @ [k])"
  by (induction d) auto

lemma dict_in_iff: "dict_in k d \<longleftrightarrow> key_norm k \<in> set (map key_norm (map fst d))"
  by (induction d) (auto simp: key_eq_def)

lemma keys_distinct_dict_set: "keys_distinct d \<Longrightarrow> keys_distinct (dict_set d k v)"
  unfolding keys_distinct_def map_fst_dict_set
  by (simp add: dict_in_iff)

lemma keys_distinct_foldl_add_entry:
  "keys_distinct gpt \<Longrightarrow> keys_distinct (foldl add_entry gpt es)"
  by (induction es arbitrary: gpt) (simp_all add: add_entry_def keys_distinct_dict_set)

lemma dict_in_dict_set: "dict_in k (dict_set d k0 v) \<longleftrightarrow> dict_in k d \<or> key_eq k0 k"
  by (induction d) (auto simp: key_eq_def split: if_splits)

lemma dict_in_add_entry: "dict_in k (add_entry gpt e) \<longleftrightarrow> dict_in k gpt \<or> key_eq (fst e) k"
  by (simp add: add_entry_def dict_in_dict_set)

lemma dict_in_foldl_add_entry:
  "dict_in k (foldl add_entry gpt es) \<longleftrightarrow> dict_in k gpt \<or> (\<exists>e\<in>set es. key_eq (fst e) k)"
  by (induction es arbitrary: gpt) (auto simp: dict_in_add_entry)

lemma keys_add_entry: "set (map fst (add_entry gpt e)) \<subseteq> insert (fst e) (set (map fst gpt))"
  unfolding add_entry_def map_fst_dict_set by auto

lemma keys_foldl_add_entry:
  "set (map fst (foldl add_entry gpt es)) \<subseteq> set (map fst gpt) \<union> set (map fst es)"
proof (induction es arbitrary: gpt)
  case Nil
  then show ?case by simp
next
  case (Cons e es)
  from Cons.IH[of "add_entry gpt e"] keys_add_entry[of gpt e] show ?case
    by auto
qed

lemma values_dict_set:
  "(k', l) \<in> set (dict_set d k v) \<Longrightarrow> (k', l) \<in> set d \<or> l = v"
  by (induction d) (auto split: if_splits)

lemma dict_get_in_values: "dict_get d k = Inr l \<Longrightarrow> \<exists>k'. (k', l) \<in> set d"
proof (induction d)
  case Nil
  then show ?case by simp
next
  case (Cons x d)
  obtain k0 v0 where x: "x = (k0, v0)" by (cases x)
  show ?case
  proof (cases "key_eq k0 k")
    case True
    with Cons.prems have "l = v0" by (simp add: x)
    then show ?thesis by (auto simp: x)
  next
    case False
    with Cons.prems have "dict_get d k = Inr l" by (simp add: x)
    from Cons.IH[OF this] show ?thesis by auto
  qed
qed

lemma team_list_in_values:
  "team_list d k = [] \<or> (\<exists>k'. (k', team_list d k) \<in> set d)"
proof (cases "dict_get d k")
  case (Inl e)
  then show ?thesis by (simp add: team_list_def)
next
  case (Inr l)
  from dict_get_in_values[OF this] Inr show ?thesis by (simp add: team_list_def)
qed

lemma records_of_add_entry: "records_of (add_entry gpt e) \<subseteq> insert (snd e) (records_of gpt)"
proof
  fix r assume "r \<in> records_of (add_entry gpt e)"
  then obtain k' l where kl: "(k', l) \<in> set (add_entry gpt e)" and r: "r \<in> set l"
    by (auto simp: records_of_def)
  from kl have "(k', l) \<in> set gpt \<or> l = team_list gpt (fst e) @ [snd e]"
    unfolding add_entry_def by (rule values_dict_set)
  then show "r \<in> insert (snd e) (records_of gpt)"
  proof
    assume "(k', l) \<in> set gpt"
    with r have "r \<in> records_of gpt" by (force simp: records_of_def)
    then show ?thesis by simp
  next
    assume l: "l = team_list gpt (fst e) @ [snd e]"
    from team_list_in_values[of gpt "fst e"] r l
    have "r = snd e \<or> r \<in> records_of gpt" by (force simp: records_of_def)
    then show ?thesis by auto
  qed
qed

lemma records_of_foldl_add_entry:
  "records_of (foldl add_entry gpt es) \<subseteq> records_of gpt \<union> set (map snd es)"
proof (induction es arbitrary: gpt)
  case Nil
  then show ?case by simp
next
  case (Cons e es)
  from Cons.IH[of "add_entry gpt e"] records_of_add_entry[of gpt e] show ?case
    by auto
qed

lemma nonempty_add_entry:
  "\<forall>kv\<in>set gpt. snd kv \<noteq> [] \<Longrightarrow> \<forall>kv\<in>set (add_entry gpt e). snd kv \<noteq> []"
  unfolding add_entry_def by (auto dest: values_dict_set)

lemma nonempty_foldl_add_entry:
  "\<forall>kv\<in>set gpt. snd kv \<noteq> [] \<Longrightarrow> \<forall>kv\<in>set (foldl add_entry gpt es). snd kv \<noteq> []"
proof (induction es arbitrary: gpt)
  case Nil
  then show ?case by simp
next
  case (Cons e es)
  from Cons.IH[OF nonempty_add_entry[OF Cons.prems]] show ?case by simp
qed

subsection \<open>The records of a team\<close>

lemma get_game_by_teams_example_R: "get_game_by_teams example_schedule ''R'' = Inr example_R"
  by code_simp

lemma contribution_entries:
  "contribution ft k dg = map snd (filter (\<lambda>e. key_eq (fst e) k) (entries ft dg))"
  by (simp add: contribution_def entries_def)

lemma map_filter_concat_map:
  "map f (filter P (concat (map g xs))) = concat (map (\<lambda>x. map f (filter P (g x))) xs)"
  by (induction xs) simp_all

lemma length_entries: "length (concat (map (entries ft) gs)) = 2 * length (filter (\<lambda>dg. passes ft (snd dg)) gs)"
  by (induction gs) (simp_all add: entries_def)

lemma entries_type:
  "ft \<noteq> ''all'' \<Longrightarrow> e \<in> set (entries ft dg) \<Longrightarrow> type (snd e) = JStr ft"
  by (auto simp: entries_def passes_def home_record_def away_record_def field_def split: if_splits)

lemma records_of_Nil [simp]: "records_of [] = {}"
  by (simp add: records_of_def)

lemma total_records_Nil [simp]: "total_records [] = 0"
  by (simp add: total_records_def)

lemma keys_distinct_Nil [simp]: "keys_distinct []"
  by (simp add: keys_distinct_def)

section \<open>When the aggregation returns\<close>

lemma returns_iff: "returns r \<longleftrightarrow> (\<exists>v. r = Inr v)"
  by (cases r) (simp_all add: returns_def)


lemma returns_field: "returns (getitem v k) \<Longrightarrow> getitem v k = Inr (field v k)"
  by (auto simp: returns_iff field_def)

lemma add_team_game_returns:
  assumes "to_key t = Inr k" "getitem d ''date'' = Inr dv" "getitem g ''gameType'' = Inr tv"
  shows "\<exists>gpt'. add_team_game gpt t d g opp loc = Inr gpt'"
proof (cases "dict_in k gpt")
  case True
  from dict_in_get[OF this] obtain old where "dict_get gpt k = Inr old" ..
  with assms True show ?thesis
    by (simp add: add_team_game_def and_then_def make_record_def)
next
  case False
  with assms show ?thesis
    by (simp add: add_team_game_def and_then_def make_record_def)
qed

lemma game_body_returns: "returns (game_body ft d gpt g) \<longleftrightarrow> read_ok ft d g"
proof
  assume "returns (game_body ft d gpt g)"
  then obtain gpt' where r: "game_body ft d gpt g = Inr gpt'"
    by (auto simp: returns_iff)
  then have "returns (type_test ft g)"
    by (auto simp: game_body_def and_then_Inr_iff returns_iff)
  with game_body_Inr[OF r] show "read_ok ft d g"
    by (simp add: read_ok_def)
next
  assume ok: "read_ok ft d g"
  then obtain c where c: "type_test ft g = Inr c"
    by (auto simp: read_ok_def returns_iff)
  then have cp: "c = passes ft g" by (rule type_test_passes)
  show "returns (game_body ft d gpt g)"
  proof (cases c)
    case False
    with c show ?thesis by (simp add: game_body_def and_then_def returns_def)
  next
    case True
    with ok cp have cm: "complete d g" by (simp add: read_ok_def)
    then have h: "game_team_id g ''home'' = Inr (home_of g)"
      and a: "game_team_id g ''away'' = Inr (away_of g)"
      and hk: "to_key (home_of g) = Inr (key_of (home_of g))"
      and ak: "to_key (away_of g) = Inr (key_of (away_of g))"
      and dt: "getitem d ''date'' = Inr (field d ''date'')"
      and ty: "getitem g ''gameType'' = Inr (field g ''gameType'')"
      by (simp_all add: complete_def)
    from add_team_game_returns[OF hk dt ty] obtain gpt1 where
      s1: "add_team_game gpt (home_of g) d g (away_of g) ''home'' = Inr gpt1" by blast
    from add_team_game_returns[OF ak dt ty] obtain gpt2 where
      s2: "add_team_game gpt1 (away_of g) d g (home_of g) ''away'' = Inr gpt2" by blast
    from c True h a s1 s2 show ?thesis
      by (simp add: game_body_def and_then_def returns_def)
  qed
qed

lemma games_loop_returns: "returns (games_loop ft d gpt gs) \<longleftrightarrow> list_all (read_ok ft d) gs"
proof (induction gs arbitrary: gpt)
  case Nil
  then show ?case by (simp add: returns_def)
next
  case (Cons g gs)
  show ?case
  proof (cases "game_body ft d gpt g")
    case (Inl e)
    then have "\<not> read_ok ft d g"
      using game_body_returns[of ft d gpt g] by (simp add: returns_def)
    with Inl show ?thesis by (simp add: and_then_def returns_def)
  next
    case (Inr gpt1)
    then have "read_ok ft d g"
      using game_body_returns[of ft d gpt g] by (simp add: returns_def)
    with Inr Cons.IH[of gpt1] show ?thesis by (simp add: and_then_def)
  qed
qed

lemma dates_loop_returns: "returns (dates_loop ft gpt ds) \<longleftrightarrow> list_all (date_ok ft) ds"
proof (induction ds arbitrary: gpt)
  case Nil
  then show ?case by (simp add: returns_def)
next
  case (Cons d ds)
  show ?case
  proof (cases "and_then (getitem d ''games'') py_iter")
    case (Inl e)
    then have "dates_loop ft gpt (d # ds) = Inl e"
      by (auto simp: and_then_def split: sum.splits)
    with Inl show ?thesis by (simp add: date_ok_def returns_def)
  next
    case (Inr gs)
    then obtain gf where gf: "getitem d ''games'' = Inr gf" "py_iter gf = Inr gs"
      by (auto simp: and_then_Inr_iff)
    show ?thesis
    proof (cases "games_loop ft d gpt gs")
      case (Inl e)
      then have "\<not> list_all (read_ok ft d) gs"
        using games_loop_returns[of ft d gpt gs] by (simp add: returns_def)
      with Inl Inr gf show ?thesis by (simp add: and_then_def returns_def date_ok_def)
    next
      case r: (Inr gpt1)
      then have "list_all (read_ok ft d) gs"
        using games_loop_returns[of ft d gpt gs] by (simp add: returns_def)
      with r Inr gf Cons.IH[of gpt1] show ?thesis by (simp add: and_then_def date_ok_def)
    qed
  qed
qed

lemma get_game_by_teams_returns: "returns (get_game_by_teams s ft) \<longleftrightarrow> runs ft s"
  by (cases "py_iter s") (simp_all add: get_game_by_teams_def runs_def and_then_def returns_def dates_loop_returns[unfolded returns_def])

lemma type_test_returns: "returns (getitem g ''gameType'') \<Longrightarrow> returns (type_test ft g)"
  by (auto simp: type_test_def returns_iff and_then_def)

lemma wf_team_home: "wf_team g ''home'' \<Longrightarrow>
    game_team_id g ''home'' = Inr (home_of g) \<and> to_key (home_of g) = Inr (key_of (home_of g))"
  by (auto simp: wf_team_def returns_iff key_of_def dest: game_team_id_home split: sum.splits)

lemma wf_team_away: "wf_team g ''away'' \<Longrightarrow>
    game_team_id g ''away'' = Inr (away_of g) \<and> to_key (away_of g) = Inr (key_of (away_of g))"
  by (auto simp: wf_team_def returns_iff key_of_def dest: game_team_id_away split: sum.splits)

lemma wf_game_complete: "wf_game g \<Longrightarrow> returns (getitem d ''date'') \<Longrightarrow> complete d g"
  using returns_field[of d "''date''"] returns_field[of g "''gameType''"]
    wf_team_home[of g] wf_team_away[of g]
  by (simp add: wf_game_def complete_def)

lemma wf_game_read_ok: "wf_game g \<Longrightarrow> returns (getitem d ''date'') \<Longrightarrow> read_ok ft d g"
  by (simp add: read_ok_def wf_game_complete) (simp add: wf_game_def type_test_returns)

lemma wf_date_games_in:
  "wf_date d \<Longrightarrow> \<exists>gs. getitem d ''games'' = Inr (JList gs) \<and> list_all wf_game gs \<and> games_in d = map (Pair d) gs"
  by (auto simp: wf_date_def games_in_def and_then_def split: sum.splits json.splits)

lemma wf_date_ok: "wf_date d \<Longrightarrow> date_ok ft d"
proof -
  assume w: "wf_date d"
  then obtain gs where gs: "getitem d ''games'' = Inr (JList gs)" "list_all wf_game gs"
    using wf_date_games_in by blast
  from w have "returns (getitem d ''date'')" by (simp add: wf_date_def)
  with gs show ?thesis
    by (auto simp: date_ok_def and_then_def list_all_iff wf_game_read_ok)
qed

lemma wf_schedule_runs: "wf_schedule s \<Longrightarrow> runs ft s"
  by (cases s) (auto simp: wf_schedule_def runs_def list_all_iff wf_date_ok)


lemma get_game_by_teams_runs: "runs ft s \<Longrightarrow> \<exists>gpt. get_game_by_teams s ft = Inr gpt"
  using get_game_by_teams_returns[of s ft] by (simp add: returns_iff)



lemma entries_not_passes: "\<not> passes ft (snd dg) \<Longrightarrow> entries ft dg = []"
  by (simp add: entries_def)

lemma update_table_empty:
  "get_game_by_teams s ft = Inr [] \<Longrightarrow> update_table s ft = Inr (Placeholder ''No data retrieved...'')"
  by (simp add: update_table_def and_then_def render_def)



lemma team_list_get_game_by_teams:
  assumes "get_game_by_teams s ft = Inr gpt"
  shows "team_list gpt k = concat (map (contribution ft k) (all_games s))"
  unfolding get_game_by_teams_Inr(1)[OF assms] team_list_foldl_add_entry map_filter_concat_map
  by (simp add: contribution_entries [symmetric])
















section \<open>The table\<close>

lemma in_directory_abbr:
  "in_directory item \<Longrightarrow> \<exists>abbr. map_of TEAM_ABBR (py_str (fst item)) = Some abbr"
  using map_of_eq_None_iff[of TEAM_ABBR "py_str (fst item)"]
  by (auto simp: in_directory_def team_ids_def)

lemma build_data_eq: "build_data gpt = Inr (map row_of (filter in_directory gpt))"
proof (induction gpt)
  case Nil
  then show ?case by simp
next
  case (Cons item gpt)
  obtain k games where item: "item = (k, games)" by (cases item)
  show ?case
  proof (cases "in_directory item")
    case True
    from in_directory_abbr[OF this] obtain abbr where
      a: "map_of TEAM_ABBR (py_str k) = Some abbr" by (auto simp: item)
    from True have "py_str k \<in> set team_ids" by (simp add: in_directory_def item)
    with a Cons.IH True show ?thesis
      by (simp add: item and_then_def row_of_def)
  next
    case False
    then have "py_str k \<notin> set team_ids" by (simp add: in_directory_def item)
    with Cons.IH False show ?thesis by (simp add: item)
  qed
qed

lemma update_table_eq:
  "get_game_by_teams s ft = Inr gpt \<Longrightarrow>
     update_table s ft = Inr (render (map row_of (filter in_directory gpt)))"
  by (simp add: update_table_def and_then_def build_data_eq)

lemma sorted_sort_data: "sorted_wrt (\<lambda>a b. game_count b \<le> game_count a) (sort_data data)"
proof -
  have "sorted (map (\<lambda>r. - int (game_count r)) (sort_data data))"
    unfolding sort_data_def by (rule sorted_sort_key)
  then show ?thesis by (simp add: sorted_map)
qed

lemma stable_sort_data:
  "filter (\<lambda>r. game_count r = c) (sort_data data) = filter (\<lambda>r. game_count r = c) data"
  using sort_key_stable[of "\<lambda>r. - int (game_count r)" "- int c" data]
  by (simp add: sort_data_def)

lemma set_sort_data [simp]: "set (sort_data data) = set data"
  by (simp add: sort_data_def)

lemma sort_data_Nil_iff [simp]: "sort_data data = [] \<longleftrightarrow> data = []"
  by (simp add: sort_data_def flip: length_0_conv)

lemma hd_is_Max:
  assumes "sorted_wrt (\<lambda>a b. game_count b \<le> game_count a) rows" "rows \<noteq> []"
  shows "game_count (hd rows) = Max (game_count ` set rows)"
proof -
  from assms(2) obtain r rs where rows: "rows = r # rs" by (cases rows) auto
  with assms(1) have "\<forall>x\<in>set rows. game_count x \<le> game_count r" by auto
  then have "Max (game_count ` set rows) = game_count r"
    by (intro Max_eqI) (auto simp: rows)
  then show ?thesis by (simp add: rows)
qed

lemma last_is_Min:
  assumes "sorted_wrt (\<lambda>a b. game_count b \<le> game_count a) rows" "rows \<noteq> []"
  shows "game_count (last rows) = Min (game_count ` set rows)"
proof -
  from assms(2) have rows: "rows = butlast rows @ [last rows]" by simp
  with assms(1) have "sorted_wrt (\<lambda>a b. game_count b \<le> game_count a) (butlast rows @ [last rows])"
    by simp
  then have "\<forall>x\<in>set (butlast rows). game_count (last rows) \<le> game_count x"
    unfolding sorted_wrt_append by simp
  moreover have "set rows = insert (last rows) (set (butlast rows))"
    by (subst rows) simp
  ultimately have "Min (game_count ` set rows) = game_count (last rows)"
    by (intro Min_eqI) auto
  then show ?thesis by simp
qed

lemma render_nonempty:
  "data \<noteq> [] \<Longrightarrow>
     render data = DataTable (sort_data data)
       (game_count (hd (sort_data data))) (game_count (last (sort_data data)))"
  by (simp add: render_def Let_def hd_conv_nth last_conv_nth)

lemma render_DataTable:
  assumes "render data = DataTable rows hi lo"
  shows "data \<noteq> [] \<and> rows = sort_data data \<and>
         hi = game_count (hd rows) \<and> lo = game_count (last rows)"
proof (cases "data = []")
  case True
  with assms show ?thesis by (simp add: render_def)
next
  case False
  from render_nonempty[OF this] assms False show ?thesis by simp
qed

lemma get_game_by_teams_nonempty:
  assumes "get_game_by_teams s ft = Inr gpt"
  shows "\<forall>item\<in>set gpt. snd item \<noteq> []"
  unfolding get_game_by_teams_Inr(1)[OF assms]
  by (rule nonempty_foldl_add_entry) simp

lemma contribution_home:
  "passes ft (snd dg) \<Longrightarrow>
     filter (\<lambda>r. location r = ''home'') (contribution ft (key_of (home_of (snd dg))) dg) =
       [home_record (fst dg) (snd dg)]"
  by (simp add: contribution_def home_record_def away_record_def)

lemma contribution_away:
  "passes ft (snd dg) \<Longrightarrow>
     filter (\<lambda>r. location r = ''away'') (contribution ft (key_of (away_of (snd dg))) dg) =
       [away_record (fst dg) (snd dg)]"
  by (simp add: contribution_def home_record_def away_record_def)

lemma contribution_not_passes: "\<not> passes ft (snd dg) \<Longrightarrow> contribution ft k dg = []"
  by (simp add: contribution_def)

section \<open>The claims\<close>

text \<open>
  C1. Every game of the input whose type passes the filter contributes exactly one record
  with location \<open>''home''\<close> to the list of its home team, the one whose opponent is the
  away team and whose type is the game's, and exactly one record with location
  \<open>''away''\<close> to the list of its away team, the one whose opponent is the home team and
  whose type is the game's; a game that does not pass contributes nothing to any list.
  The list of every team is the concatenation of what the games of the input contribute
  to it (so a team that is host to the same opponent in two passing games has one such
  record for each), and the fields of every passing game were there to read.
\<close>

theorem aggregation_one_record_per_side:
  assumes "get_game_by_teams schedule game_type = Inr gpt"
  shows "(\<forall>k. team_list gpt k = concat (map (contribution game_type k) (all_games schedule))) \<and>
         (\<forall>dg\<in>set (all_games schedule).
            if passes game_type (snd dg) then
              complete (fst dg) (snd dg) \<and>
              filter (\<lambda>r. location r = ''home'')
                (contribution game_type (key_of (home_of (snd dg))) dg) =
                [home_record (fst dg) (snd dg)] \<and>
              filter (\<lambda>r. location r = ''away'')
                (contribution game_type (key_of (away_of (snd dg))) dg) =
                [away_record (fst dg) (snd dg)]
            else \<forall>k. contribution game_type k dg = [])"
proof -
  have 1: "team_list gpt k = concat (map (contribution game_type k) (all_games schedule))" for k
    by (rule team_list_get_game_by_teams[OF assms])
  have 2: "complete (fst dg) (snd dg)"
    if "dg \<in> set (all_games schedule)" "passes game_type (snd dg)" for dg
    using get_game_by_teams_Inr(2)[OF assms] that by blast
  from 1 2 show ?thesis
    by (simp add: contribution_home contribution_away contribution_not_passes)
qed

theorem aggregation_one_record_per_side_witness:
  "get_game_by_teams example_schedule ''R'' = Inr example_R \<and>
   team_list example_R (KInt 15) =
     concat (map (contribution ''R'' (KInt 15)) (all_games example_schedule)) \<and>
   concat (map (contribution ''R'' (KInt 15)) (all_games example_schedule)) =
     [\<lparr>date = JStr ''2022-10-12'', against = JInt 6, location = ''away'', type = JStr ''R''\<rparr>,
      \<lparr>date = JStr ''2022-10-13'', against = JInt 99, location = ''home'', type = JStr ''R''\<rparr>] \<and>
   (example_day1, game_json ''R'' (JInt 6) (JInt 15)) \<in> set (all_games example_schedule) \<and>
   passes ''R'' (game_json ''R'' (JInt 6) (JInt 15)) \<and>
   complete example_day1 (game_json ''R'' (JInt 6) (JInt 15)) \<and>
   key_of (home_of (game_json ''R'' (JInt 6) (JInt 15))) = KInt 6 \<and>
   filter (\<lambda>r. location r = ''home'')
     (contribution ''R'' (KInt 6) (example_day1, game_json ''R'' (JInt 6) (JInt 15))) =
     [home_record example_day1 (game_json ''R'' (JInt 6) (JInt 15))] \<and>
   home_record example_day1 (game_json ''R'' (JInt 6) (JInt 15)) =
     \<lparr>date = JStr ''2022-10-12'', against = JInt 15, location = ''home'', type = JStr ''R''\<rparr> \<and>
   (example_day2, game_json ''PR'' (JInt 10) (JInt 6)) \<in> set (all_games example_schedule) \<and>
   \<not> passes ''R'' (game_json ''PR'' (JInt 10) (JInt 6)) \<and>
   contribution ''R'' (KInt 10) (example_day2, game_json ''PR'' (JInt 10) (JInt 6)) = []"
proof -
  have h: "get_game_by_teams example_schedule ''R'' = Inr example_R"
    by code_simp
  have m: "(example_day1, game_json ''R'' (JInt 6) (JInt 15)) \<in> set (all_games example_schedule)"
    by code_simp
  have p: "passes ''R'' (game_json ''R'' (JInt 6) (JInt 15))"
    by code_simp
  have k: "key_of (home_of (game_json ''R'' (JInt 6) (JInt 15))) = KInt 6"
    by code_simp
  have c: "concat (map (contribution ''R'' (KInt 15)) (all_games example_schedule)) =
     [\<lparr>date = JStr ''2022-10-12'', against = JInt 6, location = ''away'', type = JStr ''R''\<rparr>,
      \<lparr>date = JStr ''2022-10-13'', against = JInt 99, location = ''home'', type = JStr ''R''\<rparr>]"
    by code_simp
  have r: "home_record example_day1 (game_json ''R'' (JInt 6) (JInt 15)) =
     \<lparr>date = JStr ''2022-10-12'', against = JInt 15, location = ''home'', type = JStr ''R''\<rparr>"
    by code_simp
  have m2: "(example_day2, game_json ''PR'' (JInt 10) (JInt 6)) \<in> set (all_games example_schedule)"
    by code_simp
  have p2: "\<not> passes ''R'' (game_json ''PR'' (JInt 10) (JInt 6))"
    by code_simp
  note t = aggregation_one_record_per_side[OF h]
  from t have 1: "team_list example_R (KInt 15) =
     concat (map (contribution ''R'' (KInt 15)) (all_games example_schedule))" by blast
  from t m p have 2: "complete example_day1 (game_json ''R'' (JInt 6) (JInt 15)) \<and>
     filter (\<lambda>r. location r = ''home'')
       (contribution ''R'' (key_of (home_of (game_json ''R'' (JInt 6) (JInt 15))))
          (example_day1, game_json ''R'' (JInt 6) (JInt 15))) =
       [home_record example_day1 (game_json ''R'' (JInt 6) (JInt 15))]"
    by fastforce
  from t m2 p2 have 3: "contribution ''R'' (KInt 10) (example_day2, game_json ''PR'' (JInt 10) (JInt 6)) = []"
    by fastforce
  from h 1 c m p 2 k r m2 p2 3 show ?thesis by simp
qed

text \<open>
  C2. The lengths of the lists of all teams add up to twice the number of games of the
  input that pass the filter (no two entries of the result are for the same team, so the
  sum over the entries is the sum over the teams).
\<close>

theorem aggregation_total_is_twice_matching:
  assumes "get_game_by_teams schedule game_type = Inr gpt"
  shows "total_records gpt =
           2 * length (filter (\<lambda>dg. passes game_type (snd dg)) (all_games schedule)) \<and>
         keys_distinct gpt"
  unfolding get_game_by_teams_Inr(1)[OF assms]
  by (simp add: total_records_foldl_add_entry length_entries keys_distinct_foldl_add_entry)

theorem aggregation_total_is_twice_matching_witness:
  "get_game_by_teams example_schedule ''R'' = Inr example_R \<and>
   total_records example_R = 2 * length (filter (\<lambda>dg. passes ''R'' (snd dg)) (all_games example_schedule)) \<and>
   total_records example_R = 4 \<and> keys_distinct example_R"
proof -
  have h: "get_game_by_teams example_schedule ''R'' = Inr example_R"
    by code_simp
  have t: "total_records example_R = 4"
    by code_simp
  from aggregation_total_is_twice_matching[OF h] h t show ?thesis
    by simp
qed

text \<open>
  C3. With a filter other than \<open>''all''\<close>, the type of every record of every list of the
  result is the filter value.
\<close>

theorem aggregation_records_have_filter_type:
  assumes "get_game_by_teams schedule game_type = Inr gpt" and "game_type \<noteq> ''all''"
  shows "\<forall>kv\<in>set gpt. \<forall>r\<in>set (snd kv). type r = JStr game_type"
proof (intro ballI)
  fix kv r assume "kv \<in> set gpt" "r \<in> set (snd kv)"
  then have "r \<in> records_of gpt" by (auto simp: records_of_def)
  with records_of_foldl_add_entry[of "[]" "concat (map (entries game_type) (all_games schedule))"]
  obtain e dg where "e \<in> set (entries game_type dg)" "r = snd e"
    unfolding get_game_by_teams_Inr(1)[OF assms(1)] by auto
  with entries_type[OF assms(2)] show "type r = JStr game_type" by simp
qed

theorem aggregation_records_have_filter_type_witness:
  "get_game_by_teams example_schedule ''R'' = Inr example_R \<and> ''R'' \<noteq> ''all'' \<and>
   list_all (\<lambda>kv. list_all (\<lambda>r. type r = JStr ''R'') (snd kv)) example_R \<and>
   example_R \<noteq> []"
proof -
  have h: "get_game_by_teams example_schedule ''R'' = Inr example_R"
    by code_simp
  have n: "''R'' \<noteq> ''all''" by simp
  have e: "example_R \<noteq> []" by (simp add: example_R_def)
  from aggregation_records_have_filter_type[OF h n] h e show ?thesis
    by (simp add: list_all_iff)
qed

text \<open>
  C4. An empty list of date groups gives the empty dict, and so does a well-formed
  schedule none of whose games passes the filter. In both cases \<open>update_table\<close>
  returns the placeholder text and not a table, and nothing is raised.
\<close>

theorem no_games_gives_placeholder:
  "get_game_by_teams (JList []) game_type = Inr [] \<and>
   update_table (JList []) game_type = Inr (Placeholder ''No data retrieved...'') \<and>
   (wf_schedule schedule \<and> (\<forall>dg\<in>set (all_games schedule). \<not> passes game_type (snd dg)) \<longrightarrow>
      get_game_by_teams schedule game_type = Inr [] \<and>
      update_table schedule game_type = Inr (Placeholder ''No data retrieved...''))"
proof -
  have e: "get_game_by_teams (JList []) game_type = Inr []"
    by (simp add: get_game_by_teams_def and_then_def)
  have n: "get_game_by_teams schedule game_type = Inr []"
    if w: "wf_schedule schedule" and p: "\<forall>dg\<in>set (all_games schedule). \<not> passes game_type (snd dg)"
  proof -
    from w obtain gpt where g: "get_game_by_teams schedule game_type = Inr gpt"
      using get_game_by_teams_runs[OF wf_schedule_runs] by blast
    from p have "concat (map (entries game_type) (all_games schedule)) = []"
      by (simp add: entries_not_passes)
    with get_game_by_teams_Inr(1)[OF g] g show ?thesis by simp
  qed
  from e n update_table_empty show ?thesis by blast
qed

theorem no_games_gives_placeholder_witness:
  "wf_schedule example_schedule \<and>
   list_all (\<lambda>dg. \<not> passes ''P'' (snd dg)) (all_games example_schedule) \<and>
   all_games example_schedule \<noteq> [] \<and>
   get_game_by_teams example_schedule ''P'' = Inr [] \<and>
   update_table example_schedule ''P'' = Inr (Placeholder ''No data retrieved...'')"
proof -
  have w: "wf_schedule example_schedule"
    by code_simp
  have p: "list_all (\<lambda>dg. \<not> passes ''P'' (snd dg)) (all_games example_schedule)"
    by code_simp
  have n: "all_games example_schedule \<noteq> []"
    by code_simp
  from no_games_gives_placeholder[of "''P''" example_schedule] w p n show ?thesis
    by (simp add: list_all_iff)
qed

text \<open>
  C5. The sort of the rows leaves the counts in non-increasing order and is stable: the
  rows of any one count stand in the order they had before, and no row is lost or added.
  So for a non-empty list the first row of the table has the greatest count and the last
  row the least, and these are the two counts the table highlights.
\<close>

theorem rows_sorted_descending_stable:
  "sorted_wrt (\<lambda>a b. game_count b \<le> game_count a) (sort_data data) \<and>
   (\<forall>c. filter (\<lambda>r. game_count r = c) (sort_data data) = filter (\<lambda>r. game_count r = c) data) \<and>
   mset (sort_data data) = mset data \<and>
   (data \<noteq> [] \<longrightarrow>
      game_count (hd (sort_data data)) = Max (game_count ` set data) \<and>
      game_count (last (sort_data data)) = Min (game_count ` set data) \<and>
      render data = DataTable (sort_data data)
        (Max (game_count ` set data)) (Min (game_count ` set data)))"
proof (intro conjI impI allI)
  show "sorted_wrt (\<lambda>a b. game_count b \<le> game_count a) (sort_data data)"
    by (rule sorted_sort_data)
  show "filter (\<lambda>r. game_count r = c) (sort_data data) = filter (\<lambda>r. game_count r = c) data" for c
    by (rule stable_sort_data)
  show "mset (sort_data data) = mset data"
    by (simp add: sort_data_def)
  assume n: "data \<noteq> []"
  then have n': "sort_data data \<noteq> []" by simp
  from hd_is_Max[OF sorted_sort_data n']
  show h: "game_count (hd (sort_data data)) = Max (game_count ` set data)" by simp
  from last_is_Min[OF sorted_sort_data n']
  show l: "game_count (last (sort_data data)) = Min (game_count ` set data)" by simp
  from render_nonempty[OF n] h l
  show "render data = DataTable (sort_data data)
        (Max (game_count ` set data)) (Min (game_count ` set data))" by simp
qed

theorem rows_sorted_descending_stable_witness:
  "example_rows \<noteq> [] \<and>
   sort_data example_rows =
     [\<lparr>team = ''BOS'', game_count = 2\<rparr>, \<lparr>team = ''WSH'', game_count = 2\<rparr>,
      \<lparr>team = ''TOR'', game_count = 1\<rparr>, \<lparr>team = ''NJD'', game_count = 1\<rparr>] \<and>
   game_count (hd (sort_data example_rows)) = Max (game_count ` set example_rows) \<and>
   game_count (last (sort_data example_rows)) = Min (game_count ` set example_rows) \<and>
   render example_rows = DataTable (sort_data example_rows)
     (Max (game_count ` set example_rows)) (Min (game_count ` set example_rows)) \<and>
   render example_rows = DataTable (sort_data example_rows) 2 1"
proof -
  have n: "example_rows \<noteq> []" by (simp add: example_rows_def)
  have s: "sort_data example_rows =
     [\<lparr>team = ''BOS'', game_count = 2\<rparr>, \<lparr>team = ''WSH'', game_count = 2\<rparr>,
      \<lparr>team = ''TOR'', game_count = 1\<rparr>, \<lparr>team = ''NJD'', game_count = 1\<rparr>]"
    by (simp add: example_rows_def sort_data_def)
  have r: "render example_rows = DataTable (sort_data example_rows) 2 1"
    by (simp add: render_def Let_def s) (simp add: example_rows_def)
  from rows_sorted_descending_stable[of example_rows] n s r show ?thesis
    by simp
qed



text \<open>
  C7. A team that plays a passing game is a key of the result whether or not the
  directory knows it. The rows are built from the keys whose \<^verbatim>\<open>str\<close> is a key of
  \<open>TEAM_ABBR\<close> and from no other, in the order of the dict, each with the abbreviation
  the table gives for it; reading the table never raises.
\<close>

theorem rows_only_for_directory_teams:
  assumes "get_game_by_teams schedule game_type = Inr gpt"
  shows "(\<forall>dg\<in>set (all_games schedule). passes game_type (snd dg) \<longrightarrow>
            dict_in (key_of (home_of (snd dg))) gpt \<and> dict_in (key_of (away_of (snd dg))) gpt) \<and>
         build_data gpt = Inr (map row_of (filter in_directory gpt)) \<and>
         (\<forall>item\<in>set gpt. in_directory item \<longrightarrow>
            map_of TEAM_ABBR (py_str (fst item)) = Some (team (row_of item))) \<and>
         update_table schedule game_type = Inr (render (map row_of (filter in_directory gpt)))"
proof (intro conjI ballI impI)
  fix dg assume dg: "dg \<in> set (all_games schedule)" and p: "passes game_type (snd dg)"
  let ?es = "concat (map (entries game_type) (all_games schedule))"
  from dg p have h: "(key_of (home_of (snd dg)), home_record (fst dg) (snd dg)) \<in> set ?es"
    by (force simp: entries_def)
  from dg p have a: "(key_of (away_of (snd dg)), away_record (fst dg) (snd dg)) \<in> set ?es"
    by (force simp: entries_def)
  have "\<exists>e\<in>set ?es. key_eq (fst e) (key_of (home_of (snd dg)))"
    by (rule bexI[OF _ h]) simp
  then show "dict_in (key_of (home_of (snd dg))) gpt"
    unfolding get_game_by_teams_Inr(1)[OF assms] dict_in_foldl_add_entry by blast
  have "\<exists>e\<in>set ?es. key_eq (fst e) (key_of (away_of (snd dg)))"
    by (rule bexI[OF _ a]) simp
  then show "dict_in (key_of (away_of (snd dg))) gpt"
    unfolding get_game_by_teams_Inr(1)[OF assms] dict_in_foldl_add_entry by blast
next
  show "build_data gpt = Inr (map row_of (filter in_directory gpt))"
    by (rule build_data_eq)
next
  fix item assume "item \<in> set gpt" "in_directory item"
  from in_directory_abbr[OF this(2)]
  show "map_of TEAM_ABBR (py_str (fst item)) = Some (team (row_of item))"
    by (auto simp: row_of_def)
next
  show "update_table schedule game_type = Inr (render (map row_of (filter in_directory gpt)))"
    by (rule update_table_eq[OF assms])
qed

theorem rows_only_for_directory_teams_witness:
  "get_game_by_teams example_schedule ''R'' = Inr example_R \<and>
   (example_day2, game_json ''R'' (JInt 15) (JInt 99)) \<in> set (all_games example_schedule) \<and>
   passes ''R'' (game_json ''R'' (JInt 15) (JInt 99)) \<and>
   key_of (away_of (game_json ''R'' (JInt 15) (JInt 99))) = KInt 99 \<and>
   dict_in (KInt 99) example_R \<and>
   py_str (KInt 99) = ''99'' \<and>
   ''99'' \<notin> set team_ids \<and>
   build_data example_R = Inr (map row_of (filter in_directory example_R)) \<and>
   map row_of (filter in_directory example_R) =
     [\<lparr>team = ''BOS'', game_count = 1\<rparr>, \<lparr>team = ''WSH'', game_count = 2\<rparr>] \<and>
   update_table example_schedule ''R'' =
     Inr (DataTable [\<lparr>team = ''WSH'', game_count = 2\<rparr>, \<lparr>team = ''BOS'', game_count = 1\<rparr>] 2 1)"
proof -
  have h: "get_game_by_teams example_schedule ''R'' = Inr example_R"
    by code_simp
  have m: "(example_day2, game_json ''R'' (JInt 15) (JInt 99)) \<in> set (all_games example_schedule)"
    by code_simp
  have p: "passes ''R'' (game_json ''R'' (JInt 15) (JInt 99))"
    by code_simp
  have k: "key_of (away_of (game_json ''R'' (JInt 15) (JInt 99))) = KInt 99"
    by code_simp
  have s: "py_str (KInt 99) = ''99''"
    by code_simp
  have n: "''99'' \<notin> set team_ids"
    by code_simp
  have r: "map row_of (filter in_directory example_R) =
     [\<lparr>team = ''BOS'', game_count = 1\<rparr>, \<lparr>team = ''WSH'', game_count = 2\<rparr>]"
    by code_simp
  have t: "render [\<lparr>team = ''BOS'', game_count = 1\<rparr>, \<lparr>team = ''WSH'', game_count = 2\<rparr>] =
     DataTable [\<lparr>team = ''WSH'', game_count = 2\<rparr>, \<lparr>team = ''BOS'', game_count = 1\<rparr>] 2 1"
    by code_simp
  note c = rows_only_for_directory_teams[OF h]
  from c m p k have d: "dict_in (KInt 99) example_R" by fastforce
  from c have b: "build_data example_R = Inr (map row_of (filter in_directory example_R))"
    by blast
  from c r t have u: "update_table example_schedule ''R'' =
     Inr (DataTable [\<lparr>team = ''WSH'', game_count = 2\<rparr>, \<lparr>team = ''BOS'', game_count = 1\<rparr>] 2 1)"
    by simp
  from h m p k d s n b r u show ?thesis by blast
qed

text \<open>
  C8. Every key of the result is the identifier of the home team or of the away team
  of a game of the input (one that passes the filter).
\<close>

theorem aggregation_keys_are_participants:
  assumes "get_game_by_teams schedule game_type = Inr gpt"
  shows "\<forall>kv\<in>set gpt. \<exists>dg\<in>set (all_games schedule).
           passes game_type (snd dg) \<and>
           ((game_team_id (snd dg) ''home'' = Inr (home_of (snd dg)) \<and>
             to_key (home_of (snd dg)) = Inr (fst kv)) \<or>
            (game_team_id (snd dg) ''away'' = Inr (away_of (snd dg)) \<and>
             to_key (away_of (snd dg)) = Inr (fst kv)))"
proof
  fix kv assume "kv \<in> set gpt"
  then have "fst kv \<in> set (map fst gpt)" by simp
  with keys_foldl_add_entry[of "[]" "concat (map (entries game_type) (all_games schedule))"]
  obtain dg e where dg: "dg \<in> set (all_games schedule)" and e: "e \<in> set (entries game_type dg)"
    and k: "fst kv = fst e"
    unfolding get_game_by_teams_Inr(1)[OF assms] by auto
  from e have p: "passes game_type (snd dg)"
    by (auto simp: entries_def split: if_splits)
  with get_game_by_teams_Inr(2)[OF assms] dg have c: "complete (fst dg) (snd dg)" by blast
  from e p k have "fst kv = key_of (home_of (snd dg)) \<or> fst kv = key_of (away_of (snd dg))"
    by (auto simp: entries_def)
  with c p dg show "\<exists>dg\<in>set (all_games schedule).
           passes game_type (snd dg) \<and>
           ((game_team_id (snd dg) ''home'' = Inr (home_of (snd dg)) \<and>
             to_key (home_of (snd dg)) = Inr (fst kv)) \<or>
            (game_team_id (snd dg) ''away'' = Inr (away_of (snd dg)) \<and>
             to_key (away_of (snd dg)) = Inr (fst kv)))"
    by (auto simp: complete_def)
qed

theorem aggregation_keys_are_participants_witness:
  "get_game_by_teams example_schedule ''R'' = Inr example_R \<and>
   (KInt 99,
    [\<lparr>date = JStr ''2022-10-13'', against = JInt 15, location = ''away'', type = JStr ''R''\<rparr>])
     \<in> set example_R \<and>
   (\<exists>dg\<in>set (all_games example_schedule).
      passes ''R'' (snd dg) \<and>
      ((game_team_id (snd dg) ''home'' = Inr (home_of (snd dg)) \<and>
        to_key (home_of (snd dg)) = Inr (KInt 99)) \<or>
       (game_team_id (snd dg) ''away'' = Inr (away_of (snd dg)) \<and>
        to_key (away_of (snd dg)) = Inr (KInt 99))))"
proof -
  have h: "get_game_by_teams example_schedule ''R'' = Inr example_R"
    by code_simp
  have m: "(KInt 99,
    [\<lparr>date = JStr ''2022-10-13'', against = JInt 15, location = ''away'', type = JStr ''R''\<rparr>])
     \<in> set example_R"
    by (simp add: example_R_def)
  from aggregation_keys_are_participants[OF h] m h show ?thesis
    by fastforce
qed

text \<open>
  Why a team identifier has to be a scalar: the membership test of line 138 hashes it.
\<close>

lemma unhashable_team_id_raises:
  "get_game_by_teams unhashable_schedule ''R'' = Inl TypeError"
  by code_simp




text \<open>
  C10. No key of the result has an empty list, so every row of the table counts at
  least one game, and so do the two counts the table highlights.
\<close>

theorem every_team_has_a_game:
  assumes "get_game_by_teams schedule game_type = Inr gpt"
  shows "(\<forall>item\<in>set gpt. snd item \<noteq> []) \<and>
         (\<forall>rows hi lo. update_table schedule game_type = Inr (DataTable rows hi lo) \<longrightarrow>
            (\<forall>r\<in>set rows. 1 \<le> game_count r) \<and> 1 \<le> hi \<and> 1 \<le> lo)"
proof (intro conjI allI impI)
  show ne: "\<forall>item\<in>set gpt. snd item \<noteq> []"
    by (rule get_game_by_teams_nonempty[OF assms])
  fix rows hi lo
  assume "update_table schedule game_type = Inr (DataTable rows hi lo)"
  with update_table_eq[OF assms]
  have "render (map row_of (filter in_directory gpt)) = DataTable rows hi lo" by simp
  from render_DataTable[OF this]
  have d: "map row_of (filter in_directory gpt) \<noteq> []"
    and r: "rows = sort_data (map row_of (filter in_directory gpt))"
    and h: "hi = game_count (hd rows)" and l: "lo = game_count (last rows)"
    by simp_all
  from ne r show a: "\<forall>r\<in>set rows. 1 \<le> game_count r"
    by (auto simp: row_of_def Suc_le_eq)
  from d r have "rows \<noteq> []" by simp
  then have "hd rows \<in> set rows" "last rows \<in> set rows" by simp_all
  with a h l show "1 \<le> hi" "1 \<le> lo" by blast+
qed

theorem every_team_has_a_game_witness:
  "get_game_by_teams example_schedule ''R'' = Inr example_R \<and>
   list_all (\<lambda>item. snd item \<noteq> []) example_R \<and>
   update_table example_schedule ''R'' =
     Inr (DataTable [\<lparr>team = ''WSH'', game_count = 2\<rparr>, \<lparr>team = ''BOS'', game_count = 1\<rparr>] 2 1) \<and>
   list_all (\<lambda>r. 1 \<le> game_count r)
     [\<lparr>team = ''WSH'', game_count = 2\<rparr>, \<lparr>team = ''BOS'', game_count = 1\<rparr>]"
proof -
  have h: "get_game_by_teams example_schedule ''R'' = Inr example_R"
    by code_simp
  have u: "update_table example_schedule ''R'' =
     Inr (DataTable [\<lparr>team = ''WSH'', game_count = 2\<rparr>, \<lparr>team = ''BOS'', game_count = 1\<rparr>] 2 1)"
    by code_simp
  note c = every_team_has_a_game[OF h]
  from c have 1: "list_all (\<lambda>item. snd item \<noteq> []) example_R"
    by (simp add: list_all_iff)
  from c u have 2: "list_all (\<lambda>r. 1 \<le> game_count r)
     [\<lparr>team = ''WSH'', game_count = 2\<rparr>, \<lparr>team = ''BOS'', game_count = 1\<rparr>]"
    unfolding list_all_iff by blast
  from h u 1 2 show ?thesis by blast
qed

end
